theory Spec2Isabelle
  imports Complex_Main "HOL-Library.Sublist"
begin

section \<open>Conventions of the embedding\<close>

text \<open>
  The sources are the TypeScript front end of the quest helper: \<^verbatim>\<open>src/api/tauri.ts\<close>
  (the command and event bindings), \<^verbatim>\<open>src/views/Settings.vue\<close>, the active-quest
  progress card and the debug-information view.

  \<^item> A JavaScript \<^verbatim>\<open>number\<close> that carries a quantity (progress, seconds) is a
    \<^typ>\<open>real\<close>: arithmetic is exact, so rounding of doubles, \<^verbatim>\<open>NaN\<close> and the
    infinities are outside the model. A millisecond clock value and a counter are
    \<^typ>\<open>int\<close>.
  \<^item> A JavaScript string is a \<^typ>\<open>string\<close>; one \<^typ>\<open>char\<close> stands for one UTF-16
    code unit.
  \<^item> An awaited promise is a sum: \<open>Inl e\<close> is a rejection with the value \<open>e\<close> (already
    converted by \<^verbatim>\<open>String(e)\<close>), \<open>Inr v\<close> a fulfilment with \<open>v\<close>.
  \<^item> A Vue \<^verbatim>\<open>ref\<close> is a field of the component's state record; a handler takes the
    state and returns the new one.
\<close>

type_synonym 'a promise = "string + 'a"

section \<open>JavaScript primitives used by the views\<close>

text \<open>\<^verbatim>\<open>String.prototype.substring(start, end)\<close>: both indices are clamped to
  \<open>[0, length]\<close> and swapped when \<open>start > end\<close>; with one argument the end is the
  length.\<close>

definition clamp_index :: "int \<Rightarrow> nat \<Rightarrow> nat" where
  "clamp_index i n = (if i < 0 then 0 else min (nat i) n)"

definition substring :: "string \<Rightarrow> int \<Rightarrow> int \<Rightarrow> string" where
  "substring s a b =
     (let n = length s; a' = clamp_index a n; b' = clamp_index b n;
          lo = min a' b'; hi = max a' b'
      in take (hi - lo) (drop lo s))"

definition substring_from :: "string \<Rightarrow> int \<Rightarrow> string" where
  "substring_from s a = substring s a (int (length s))"

text \<open>\<^verbatim>\<open>padStart(n, c)\<close> with a one-character pad string.\<close>

definition padStart :: "string \<Rightarrow> nat \<Rightarrow> char \<Rightarrow> string" where
  "padStart s n c = replicate (n - length s) c @ s"

text \<open>Decimal rendering of an integer-valued number (\<^verbatim>\<open>toString\<close>, template
  interpolation), below the magnitude where JavaScript switches to exponent notation.\<close>

definition digit_char :: "nat \<Rightarrow> char" where
  "digit_char d = ''0123456789'' ! d"

fun digits :: "nat \<Rightarrow> string" where
  "digits n = (if n < 10 then [digit_char n] else digits (n div 10) @ [digit_char (n mod 10)])"

declare digits.simps [simp del]

definition show_int :: "int \<Rightarrow> string" where
  "show_int i = (if i < 0 then ''-'' @ digits (nat (- i)) else digits (nat i))"

text \<open>The remainder operator \<^verbatim>\<open>%\<close>: the quotient is truncated towards zero, so the
  result has the sign of the dividend.\<close>

definition js_trunc :: "real \<Rightarrow> int" where
  "js_trunc x = (if 0 \<le> x then \<lfloor>x\<rfloor> else \<lceil>x\<rceil>)"

definition js_rem :: "real \<Rightarrow> real \<Rightarrow> real" where
  "js_rem x y = x - y * of_int (js_trunc (x / y))"

section \<open>The active-quest progress card\<close>

text \<open>The part of a quest the card reads: \<^verbatim>\<open>quest.id\<close>,
  \<^verbatim>\<open>quest.config.messages.quest_name\<close> and \<^verbatim>\<open>game_title\<close>. The field \<open>qid\<close> is
  the source's \<^verbatim>\<open>id\<close>.\<close>

record Quest =
  qid :: string
  quest_name :: string
  game_title :: "string option"

text \<open>The fields of the quests store that the card reads. \<open>storeError\<close> is the store's
  \<^verbatim>\<open>error\<close>.\<close>

record QuestsStore =
  activeQuestId :: "string option"
  activeQuestProgress :: real
  activeQuestTargetDuration :: real
  localProgress :: real
  questQueue :: "Quest list"
  storeError :: "string option"

definition formatTime :: "real \<Rightarrow> string" where
  "formatTime seconds =
     (let m = \<lfloor>seconds / 60\<rfloor>;
          s = \<lfloor>js_rem seconds 60\<rfloor>
      in show_int m @ '':'' @ padStart (show_int s) 2 (CHR ''0''))"


definition submittedTimeText :: "QuestsStore \<Rightarrow> string" where
  "submittedTimeText st =
     (let total = activeQuestTargetDuration st;
          progress = activeQuestProgress st;
          cur = (progress / 100) * total
      in formatTime cur @ '' / '' @ formatTime total)"

text \<open>The percentage figure of the template:
  \<^verbatim>\<open>{{ Math.floor(questsStore.activeQuestProgress) }}%\<close>.\<close>

definition percentFigure :: "QuestsStore \<Rightarrow> string" where
  "percentFigure st = show_int \<lfloor>activeQuestProgress st\<rfloor> @ ''%''"

text \<open>The two layers of the progress bar. Each \<^verbatim>\<open>width\<close> style is a percentage; the
  model keeps the number that is interpolated.\<close>

definition localLayerWidth :: "QuestsStore \<Rightarrow> real" where
  "localLayerWidth st = localProgress st"

definition submittedLayerWidth :: "QuestsStore \<Rightarrow> real" where
  "submittedLayerWidth st = activeQuestProgress st"

text \<open>What the card shows for the active quest (the \<^verbatim>\<open>v-if="questsStore.activeQuestId"\<close>
  branch); \<open>None\<close> is the "no active quest" branch, which \<^verbatim>\<open>v-if\<close> also takes for
  the empty string.\<close>

record ActiveQuestView =
  idLabel :: string
  timeLabel :: string
  percentLabel :: string
  pendingBar :: real
  submittedBar :: real

definition renderActiveQuest :: "QuestsStore \<Rightarrow> ActiveQuestView option" where
  "renderActiveQuest st =
     (case activeQuestId st of
        None \<Rightarrow> None
      | Some i \<Rightarrow>
          if i = [] then None
          else Some \<lparr> idLabel = ''ID: '' @ substring i 0 8 @ ''...'',
                      timeLabel = submittedTimeText st,
                      percentLabel = percentFigure st,
                      pendingBar = localLayerWidth st,
                      submittedBar = submittedLayerWidth st \<rparr>)"


section \<open>The settings view\<close>

text \<open>\<^verbatim>\<open>CdpStatus\<close>, \<^verbatim>\<open>SuperPropertiesMode\<close> and \<^verbatim>\<open>SuperPropertiesModeInfo\<close> of
  \<^verbatim>\<open>tauri.ts\<close>. The modes \<^verbatim>\<open>'cdp' | 'remote_js' | 'default'\<close> are the constructors
  \<open>Cdp\<close>, \<open>RemoteJs\<close> and \<open>DefaultMode\<close>; \<^verbatim>\<open>null\<close> is \<open>None\<close>.\<close>

record CdpStatus =
  available :: bool
  connected :: bool
  target_title :: "string option"
  error :: "string option"

datatype SuperPropertiesMode = Cdp | RemoteJs | DefaultMode

record SuperPropertiesModeInfo =
  mode :: SuperPropertiesMode
  mode_display :: string
  build_number :: "int option"

datatype SettingsEvent = NavigateToHome | DebugUnlocked

text \<open>The refs of \<^verbatim>\<open>Settings.vue\<close> that the modelled handlers touch, the lines written
  with \<^verbatim>\<open>console.error\<close> (\<open>console\<close>), the \<^verbatim>\<open>debugMode\<close> key of
  \<^verbatim>\<open>localStorage\<close> and the events emitted to the parent component.\<close>

record SettingsState =
  cdpStatus :: "CdpStatus option"
  cdpChecking :: bool
  superPropsMode :: "SuperPropertiesModeInfo option"
  debugModeEnabled :: bool
  versionTapCount :: int
  lastTapTime :: int
  showDebugUnlockHint :: bool
  console :: "string list"
  storedDebugMode :: "string option"
  emitted :: "SettingsEvent list"

text \<open>The refs as the component's setup initialises them.\<close>

definition initialSettings :: SettingsState where
  "initialSettings =
     \<lparr> cdpStatus = None, cdpChecking = False, superPropsMode = None,
       debugModeEnabled = False, versionTapCount = 0, lastTapTime = 0,
       showDebugUnlockHint = False, console = [], storedDebugMode = None, emitted = [] \<rparr>"

text \<open>\<^verbatim>\<open>handleVersionTap\<close>; \<open>now\<close> is the value of \<^verbatim>\<open>Date.now()\<close>.\<close>

definition handleVersionTap :: "int \<Rightarrow> SettingsState \<Rightarrow> SettingsState" where
  "handleVersionTap now st =
     (let st1 = (if now - lastTapTime st > 2000 then st\<lparr>versionTapCount := 0\<rparr> else st);
          st2 = st1\<lparr>lastTapTime := now\<rparr>;
          st3 = st2\<lparr>versionTapCount := versionTapCount st2 + 1\<rparr>;
          st4 = (if versionTapCount st3 \<ge> 4 \<and> versionTapCount st3 < 7
                 then st3\<lparr>showDebugUnlockHint := True\<rparr> else st3)
      in if versionTapCount st4 \<ge> 7
         then st4\<lparr> debugModeEnabled := True,
                   storedDebugMode := Some ''true'',
                   versionTapCount := 0,
                   showDebugUnlockHint := False,
                   emitted := emitted st4 @ [DebugUnlocked] \<rparr>
         else st4)"

text \<open>The count a tap at \<open>now\<close> reaches: the counter after the reset test and the
  increment of \<open>handleVersionTap\<close>, before the unlock test.\<close>

definition counted :: "int \<Rightarrow> SettingsState \<Rightarrow> int" where
  "counted now st = (if now - lastTapTime st > 2000 then 0 else versionTapCount st) + 1"

text \<open>A sequence of taps, given by the clock value of each.\<close>

definition versionTaps :: "int list \<Rightarrow> SettingsState \<Rightarrow> SettingsState" where
  "versionTaps clock st = foldl (\<lambda>s now. handleVersionTap now s) st clock"

text \<open>The bindings \<^verbatim>\<open>checkCdpStatus\<close> and \<^verbatim>\<open>getSuperPropertiesMode\<close> of \<^verbatim>\<open>tauri.ts\<close>
  are \<^verbatim>\<open>return await invoke(command, args)\<close>: the outcome of the back-end command,
  fulfilment or rejection, is the outcome of the binding. The argument is that outcome.\<close>

definition checkCdpStatus :: "CdpStatus promise \<Rightarrow> CdpStatus promise" where
  "checkCdpStatus outcome = outcome"

definition getSuperPropertiesMode ::
  "SuperPropertiesModeInfo promise \<Rightarrow> SuperPropertiesModeInfo promise" where
  "getSuperPropertiesMode outcome = outcome"

text \<open>\<^verbatim>\<open>loadSuperPropsMode\<close>: its whole body is a \<^verbatim>\<open>try\<close> whose \<^verbatim>\<open>catch\<close> only logs.
  \<open>r\<close> is the outcome of the back-end command behind \<^verbatim>\<open>getSuperPropertiesMode()\<close>.\<close>

definition loadSuperPropsMode ::
  "SuperPropertiesModeInfo promise \<Rightarrow> SettingsState \<Rightarrow> SettingsState promise" where
  "loadSuperPropsMode r st =
     (case getSuperPropertiesMode r of
        Inr info \<Rightarrow> Inr (st\<lparr>superPropsMode := Some info\<rparr>)
      | Inl e \<Rightarrow> Inr (st\<lparr>console := console st @ [''Failed to get SuperProperties mode: '' @ e]\<rparr>))"

text \<open>\<^verbatim>\<open>checkCdp\<close>. \<open>r_status\<close> is the outcome of the back-end command behind
  \<^verbatim>\<open>checkCdpStatus(questsStore.cdpPort)\<close>, \<open>r_mode\<close> that of the command called inside
  \<^verbatim>\<open>loadSuperPropsMode\<close>. The \<^verbatim>\<open>try\<close> block yields either the state it reached, or the
  thrown value together with the state at the throw; the \<^verbatim>\<open>catch\<close> block and the
  \<^verbatim>\<open>finally\<close> block follow.\<close>

definition checkCdp_try ::
  "CdpStatus promise \<Rightarrow> SuperPropertiesModeInfo promise \<Rightarrow> SettingsState
     \<Rightarrow> (string \<times> SettingsState) + SettingsState" where
  "checkCdp_try r_status r_mode st =
     (case checkCdpStatus r_status of
        Inl e \<Rightarrow> Inl (e, st)
      | Inr received \<Rightarrow>
          (let st1 = st\<lparr>cdpStatus := Some received\<rparr>
           in case loadSuperPropsMode r_mode st1 of
                Inl e \<Rightarrow> Inl (e, st1)
              | Inr st2 \<Rightarrow> Inr st2))"

definition checkCdp ::
  "CdpStatus promise \<Rightarrow> SuperPropertiesModeInfo promise \<Rightarrow> SettingsState
     \<Rightarrow> SettingsState promise" where
  "checkCdp r_status r_mode st =
     (let st0 = st\<lparr>cdpChecking := True\<rparr>;
          st1 = (case checkCdp_try r_status r_mode st0 of
                   Inr st' \<Rightarrow> st'
                 | Inl (e, st') \<Rightarrow>
                     st'\<lparr> console := console st' @ [''CDP check failed: '' @ e],
                          cdpStatus := Some \<lparr> available = False, connected = False,
                                              target_title = None, error = Some e \<rparr> \<rparr>)
      in Inr (st1\<lparr>cdpChecking := False\<rparr>))"

section \<open>The debug-information view\<close>

text \<open>The view's \<^verbatim>\<open>copied\<close> ref, the lines written with \<^verbatim>\<open>console.error\<close>
  (\<open>consoleOut\<close>) and the text held by the system clipboard.\<close>

record DebugViewState =
  clipboard :: string
  copied :: "string option"
  consoleOut :: "string list"

text \<open>The text of the token card:
  \<^verbatim>\<open>{{ token.substring(0, 20) }}...{{ token.substring(token.length - 10) }}\<close>.\<close>

definition tokenPreview :: "string \<Rightarrow> string" where
  "tokenPreview token =
     substring token 0 20 @ ''...'' @ substring_from token (int (length token) - 10)"

text \<open>\<^verbatim>\<open>copyToClipboard(text, key)\<close>; \<open>r\<close> is the outcome of
  \<^verbatim>\<open>navigator.clipboard.writeText(text)\<close>, which on success leaves \<open>text\<close> on the
  clipboard. The timer that clears \<^verbatim>\<open>copied\<close> two seconds later is \<open>copiedTimeout\<close>.\<close>

definition copyToClipboard ::
  "string \<Rightarrow> string \<Rightarrow> unit promise \<Rightarrow> DebugViewState \<Rightarrow> DebugViewState" where
  "copyToClipboard txt key r st =
     (case r of
        Inr _ \<Rightarrow> st\<lparr>clipboard := txt, copied := Some key\<rparr>
      | Inl e \<Rightarrow> st\<lparr>consoleOut := consoleOut st @ [''Failed to copy: '' @ e]\<rparr>)"

definition copiedTimeout :: "DebugViewState \<Rightarrow> DebugViewState" where
  "copiedTimeout st = st\<lparr>copied := None\<rparr>"

text \<open>The click handler of the token card's copy button:
  \<^verbatim>\<open>copyToClipboard(authStore.token, 'token')\<close>.\<close>

definition tokenCopyClick :: "string \<Rightarrow> unit promise \<Rightarrow> DebugViewState \<Rightarrow> DebugViewState" where
  "tokenCopyClick token r st = copyToClipboard token ''token'' r st"

section \<open>The quest session controller\<close>

text \<open>
  The controller (quest sessions, the tick loop, the queue) is the Rust back end behind
  the commands \<^verbatim>\<open>start_video_quest\<close>, \<^verbatim>\<open>accept_quest\<close> and \<^verbatim>\<open>stop_quest\<close> and
  the store \<^verbatim>\<open>stores/quests\<close>; \<^verbatim>\<open>tauri.ts\<close> only forwards the arguments and the card
  only renders \<^verbatim>\<open>questQueue\<close>. The definitions of this section follow the wording of
  the specification (sections 3 and 4.4). Amounts of progress are whole seconds.
\<close>

text \<open>Modelled from the spec: the status of a quest session (data model: running,
  stopping, completed, failed; state machine: Completed, Failed, Stopped). The
  back-end type is missing.\<close>

datatype SessionStatus = Running | Stopping | Completed | Failed | Stopped

text \<open>Modelled from the spec: the QuestSession of the data model,
  \<open>{quest_id, local_pending_progress, submitted_progress, status, started_at}\<close>. The
  back-end type is missing.\<close>

record QuestSession =
  quest_id :: string
  local_pending_progress :: int
  submitted_progress :: int
  status :: SessionStatus
  started_at :: int

text \<open>Modelled from the spec: the parameters of \<open>startVideoQuest\<close> that stay fixed
  during the loop (\<open>seconds_needed\<close> is the quest's \<open>target_amount\<close>). They are the
  arguments \<^verbatim>\<open>secondsNeeded\<close>, \<^verbatim>\<open>speedMultiplier\<close> and \<^verbatim>\<open>heartbeatInterval\<close> that
  \<^verbatim>\<open>tauri.ts\<close> forwards; the loop that uses them is missing.\<close>

record VideoParams =
  target_amount :: int
  speed_multiplier :: int
  heartbeat_interval :: int

text \<open>Modelled from the spec: the session that \<open>startVideoQuest\<close> creates, both layers
  at \<open>initial_progress\<close>. The back-end command \<^verbatim>\<open>start_video_quest\<close> is missing.\<close>

definition startVideoQuest :: "string \<Rightarrow> int \<Rightarrow> int \<Rightarrow> QuestSession" where
  "startVideoQuest q initial_progress t0 =
     \<lparr> quest_id = q, local_pending_progress = initial_progress,
       submitted_progress = initial_progress, status = Running, started_at = t0 \<rparr>"

text \<open>Modelled from the spec: the "watched" amount of one tick,
  \<open>heartbeat_interval * speed_multiplier\<close> simulated seconds. The back-end loop is
  missing.\<close>

definition tick_increment :: "VideoParams \<Rightarrow> int" where
  "tick_increment p = heartbeat_interval p * speed_multiplier p"

text \<open>Modelled from the spec: one tick of the video loop of \<open>startVideoQuest\<close>. The tick
  adds the increment to \<open>local_pending_progress\<close> at once and submits the accumulated
  delta, cut at the target for the last partial interval ("a final exact-length
  submission ... rather than overshooting"); \<open>confirmed\<close> says whether the API client
  confirmed the submission, and then \<open>submitted_progress\<close> advances to the confirmed
  total. The session is Completed once \<open>submitted_progress \<ge> target_amount\<close>. The
  back-end loop is missing.\<close>

definition video_tick :: "VideoParams \<Rightarrow> bool \<Rightarrow> QuestSession \<Rightarrow> QuestSession" where
  "video_tick p confirmed s =
     (if status s = Running then
        (let pending = local_pending_progress s + tick_increment p;
             delta = min pending (target_amount p) - submitted_progress s;
             s1 = s\<lparr>local_pending_progress := pending\<rparr>;
             s2 = (if confirmed
                   then s1\<lparr>submitted_progress := submitted_progress s1 + delta\<rparr>
                   else s1)
         in if target_amount p \<le> submitted_progress s2 then s2\<lparr>status := Completed\<rparr> else s2)
      else s)"

text \<open>Modelled from the spec: the loop as a run of ticks, one submission outcome per
  tick; each tick takes \<open>heartbeat_interval\<close> seconds of wall clock. The back-end loop
  is missing.\<close>

definition video_run :: "VideoParams \<Rightarrow> bool list \<Rightarrow> QuestSession \<Rightarrow> QuestSession" where
  "video_run p outcomes s = foldl (\<lambda>s c. video_tick p c s) s outcomes"

text \<open>Modelled from the spec: the parameters of the scenario of section 8
  (\<open>target=600s, speed_multiplier=5, heartbeat_interval=10s\<close>).\<close>

definition scenario :: VideoParams where
  "scenario = \<lparr> target_amount = 600, speed_multiplier = 5, heartbeat_interval = 10 \<rparr>"

text \<open>Modelled from the spec: the controller owns every session it has created (oldest
  first) and the QuestQueue. The queued quests are the \<^verbatim>\<open>Quest\<close> objects the card
  renders from \<^verbatim>\<open>questsStore.questQueue\<close>; the store \<^verbatim>\<open>stores/quests\<close> and the back end
  are missing.\<close>

record Controller =
  sessions :: "QuestSession list"
  queue :: "Quest list"

text \<open>Modelled from the spec: the three ways a running session terminates
  (\<open>Running \<rightarrow> {Completed, Failed, Stopped}\<close>). The back-end state machine is
  missing.\<close>

datatype Ending = ByCompletion | ByFailure | ByStop

text \<open>Modelled from the spec: the status a session has after each kind of termination.
  The back-end state machine is missing.\<close>

fun final_status :: "Ending \<Rightarrow> SessionStatus" where
  "final_status ByCompletion = Completed"
| "final_status ByFailure = Failed"
| "final_status ByStop = Stopped"

text \<open>Modelled from the spec: the controller before any quest is accepted (Idle). The
  back-end state is missing.\<close>

definition idle :: Controller where
  "idle = \<lparr> sessions = [], queue = [] \<rparr>"

text \<open>Modelled from the spec: the session started for a quest. Progress and start time
  play no part in queueing and are 0 here. The back-end start commands are missing.\<close>

definition start_session :: "Quest \<Rightarrow> QuestSession" where
  "start_session q =
     \<lparr> quest_id = qid q, local_pending_progress = 0, submitted_progress = 0,
       status = Running, started_at = 0 \<rparr>"

text \<open>Modelled from the spec: the sessions whose status is Running. The back-end state
  is missing.\<close>

definition running_sessions :: "Controller \<Rightarrow> QuestSession list" where
  "running_sessions c = filter (\<lambda>s. status s = Running) (sessions c)"

text \<open>Modelled from the spec: \<open>accept(quest)\<close>: "if no session is Running, starts
  immediately; else appends to QuestQueue (reject duplicate ids silently)". The store
  action behind \<^verbatim>\<open>acceptQuest\<close> and the queue is missing.\<close>

definition accept :: "Quest \<Rightarrow> Controller \<Rightarrow> Controller" where
  "accept q c =
     (if running_sessions c = [] then c\<lparr>sessions := sessions c @ [start_session q]\<rparr>
      else if qid q \<in> set (map qid (queue c)) then c
      else c\<lparr>queue := queue c @ [q]\<rparr>)"

text \<open>Modelled from the spec: a running session takes its final status. The back-end
  state machine is missing.\<close>

definition finish :: "Ending \<Rightarrow> QuestSession \<Rightarrow> QuestSession" where
  "finish e s = (if status s = Running then s\<lparr>status := final_status e\<rparr> else s)"

text \<open>Modelled from the spec: the active session terminates and the next queued quest,
  if any, is promoted ("promoted when the active session terminates"; \<open>stop()\<close>
  "promotes the next queued quest if present"). The back-end state machine is
  missing.\<close>

definition terminate :: "Ending \<Rightarrow> Controller \<Rightarrow> Controller" where
  "terminate e c =
     (let ended = map (finish e) (sessions c)
      in case queue c of
           [] \<Rightarrow> c\<lparr>sessions := ended\<rparr>
         | q # rest \<Rightarrow> c\<lparr>sessions := ended @ [start_session q], queue := rest\<rparr>)"

text \<open>Modelled from the spec: the operations that change which session runs. The
  back-end state machine is missing.\<close>

datatype ControllerOp = Accept Quest | Terminate Ending

text \<open>Modelled from the spec: the effect of one operation on the controller. The
  back-end state machine is missing.\<close>

fun apply_op :: "Controller \<Rightarrow> ControllerOp \<Rightarrow> Controller" where
  "apply_op c (Accept q) = accept q c"
| "apply_op c (Terminate e) = terminate e c"

text \<open>Modelled from the spec: a history of operations, applied in order. The back-end
  state machine is missing.\<close>

definition run_ops :: "ControllerOp list \<Rightarrow> Controller \<Rightarrow> Controller" where
  "run_ops ops c = foldl apply_op c ops"

text \<open>Modelled from the spec: a sequence of \<open>accept\<close> calls. The back-end state machine
  is missing.\<close>

definition accept_all :: "Quest list \<Rightarrow> Controller \<Rightarrow> Controller" where
  "accept_all qs c = foldl (\<lambda>c q. accept q c) c qs"

text \<open>Modelled from the spec: a sequence of terminations, each of the session active at
  the time. The back-end state machine is missing.\<close>

definition terminate_all :: "Ending list \<Rightarrow> Controller \<Rightarrow> Controller" where
  "terminate_all es c = foldl (\<lambda>c e. terminate e c) c es"

text \<open>A quest with a given id, for concrete instances.\<close>

definition quest_of_id :: "string \<Rightarrow> Quest" where
  "quest_of_id i = \<lparr> qid = i, quest_name = i, game_title = None \<rparr>"

section \<open>Properties of the progress card\<close>

lemma formatTime_example: "formatTime 300 = ''5:00'' \<and> formatTime 605 = ''10:05''"
  by (simp add: formatTime_def js_rem_def js_trunc_def show_int_def padStart_def digit_char_def
      digits.simps)

lemma progress_card_example:
  "renderActiveQuest \<lparr> activeQuestId = Some ''1412345678901234567'', activeQuestProgress = 50,
       activeQuestTargetDuration = 600, localProgress = 60, questQueue = [],
       storeError = None \<rparr>
   = Some \<lparr> idLabel = ''ID: 14123456...'', timeLabel = ''5:00 / 10:00'',
            percentLabel = ''50%'', pendingBar = 60, submittedBar = 50 \<rparr>"
  by (simp add: renderActiveQuest_def submittedTimeText_def percentFigure_def
      localLayerWidth_def submittedLayerWidth_def formatTime_def js_rem_def js_trunc_def
      show_int_def padStart_def digit_char_def digits.simps substring_def clamp_index_def)

lemma progress_card_hidden_example:
  "renderActiveQuest \<lparr> activeQuestId = Some [], activeQuestProgress = 50,
       activeQuestTargetDuration = 600, localProgress = 60, questQueue = [],
       storeError = None \<rparr> = None"
  by (simp add: renderActiveQuest_def)




text \<open>
  Claim C8. Local pending progress is not reported as confirmed progress: two states of
  the store for the same active quest that agree on \<open>activeQuestProgress\<close> (and so on the
  quest's target duration), whatever their \<open>localProgress\<close>, give the same submitted time
  text, the same percentage figure and the same width of the submitted layer. The pending
  layer is a separate output.
\<close>

theorem confirmed_outputs_ignore_local_progress:
  assumes "activeQuestProgress s = activeQuestProgress t"
      and "activeQuestTargetDuration s = activeQuestTargetDuration t"
  shows "submittedTimeText s = submittedTimeText t
     \<and> percentFigure s = percentFigure t
     \<and> submittedLayerWidth s = submittedLayerWidth t"
  using assms by (simp add: submittedTimeText_def percentFigure_def submittedLayerWidth_def)

theorem confirmed_outputs_ignore_local_progress_witness:
  "localProgress \<lparr> activeQuestId = Some ''q'', activeQuestProgress = 50,
        activeQuestTargetDuration = 600, localProgress = 60, questQueue = [],
        storeError = None \<rparr>
     \<noteq> localProgress \<lparr> activeQuestId = Some ''q'', activeQuestProgress = 50,
        activeQuestTargetDuration = 600, localProgress = 75, questQueue = [],
        storeError = None \<rparr>
   \<and> submittedTimeText \<lparr> activeQuestId = Some ''q'', activeQuestProgress = 50,
        activeQuestTargetDuration = 600, localProgress = 60, questQueue = [],
        storeError = None \<rparr>
     = submittedTimeText \<lparr> activeQuestId = Some ''q'', activeQuestProgress = 50,
        activeQuestTargetDuration = 600, localProgress = 75, questQueue = [],
        storeError = None \<rparr>
   \<and> percentFigure \<lparr> activeQuestId = Some ''q'', activeQuestProgress = 50,
        activeQuestTargetDuration = 600, localProgress = 60, questQueue = [],
        storeError = None \<rparr>
     = percentFigure \<lparr> activeQuestId = Some ''q'', activeQuestProgress = 50,
        activeQuestTargetDuration = 600, localProgress = 75, questQueue = [],
        storeError = None \<rparr>"
  using confirmed_outputs_ignore_local_progress [of
      "\<lparr> activeQuestId = Some ''q'', activeQuestProgress = 50,
         activeQuestTargetDuration = 600, localProgress = 60, questQueue = [],
         storeError = None \<rparr>"
      "\<lparr> activeQuestId = Some ''q'', activeQuestProgress = 50,
         activeQuestTargetDuration = 600, localProgress = 75, questQueue = [],
         storeError = None \<rparr>"]
  by simp

section \<open>Properties of the settings view\<close>

text \<open>
  Claim C6. \<open>checkCdp\<close> does not raise: for every outcome of \<open>checkCdpStatus\<close> (a status,
  or a rejection with any error) and of the mode refresh, it returns, \<open>cdpChecking\<close> is
  cleared, and \<open>cdpStatus\<close> holds a status record: the one received, or, after a
  rejection, \<open>{available: false, connected: false, target_title: null, error}\<close> with the
  error in the \<open>error\<close> field.
\<close>

theorem checkCdp_never_raises:
  "\<exists>st'. checkCdp r_status r_mode st = Inr st'
     \<and> \<not> cdpChecking st'
     \<and> cdpStatus st' =
         Some (case r_status of
                 Inr received \<Rightarrow> received
               | Inl e \<Rightarrow> \<lparr> available = False, connected = False,
                             target_title = None, error = Some e \<rparr>)"
  by (cases r_status; cases r_mode)
     (simp_all add: checkCdp_def checkCdp_try_def loadSuperPropsMode_def checkCdpStatus_def
        getSuperPropertiesMode_def)

lemma checkCdp_unreachable_example:
  "map_sum id cdpStatus (checkCdp (Inl ''connection refused'') (Inl ''no mode'') initialSettings)
   = Inr (Some \<lparr> available = False, connected = False, target_title = None,
                  error = Some ''connection refused'' \<rparr>)"
  by (simp add: checkCdp_def checkCdp_try_def checkCdpStatus_def initialSettings_def)

text \<open>What one tap of \<open>handleVersionTap\<close> does to each field, in terms of the count
  the tap reaches.\<close>

lemma handleVersionTap_count:
  "versionTapCount (handleVersionTap now st) = (if counted now st \<ge> 7 then 0 else counted now st)"
  by (simp add: handleVersionTap_def counted_def Let_def)

lemma handleVersionTap_unlocks:
  "emitted (handleVersionTap now st)
     = (if counted now st \<ge> 7 then emitted st @ [DebugUnlocked] else emitted st)"
  by (simp add: handleVersionTap_def counted_def Let_def)

lemma handleVersionTap_debug_mode:
  "debugModeEnabled (handleVersionTap now st) = (debugModeEnabled st \<or> counted now st \<ge> 7)"
  by (auto simp add: handleVersionTap_def counted_def Let_def)

lemma handleVersionTap_hint:
  "showDebugUnlockHint (handleVersionTap now st)
     = (if counted now st \<ge> 7 then False
        else if counted now st \<ge> 4 then True
        else showDebugUnlockHint st)"
  by (simp add: handleVersionTap_def counted_def Let_def)

lemma handleVersionTap_count_range:
  "0 \<le> versionTapCount st \<Longrightarrow> versionTapCount st \<le> 6
     \<Longrightarrow> 0 \<le> versionTapCount (handleVersionTap now st)
       \<and> versionTapCount (handleVersionTap now st) \<le> 6"
  by (simp add: handleVersionTap_count counted_def)

lemma versionTaps_count_range:
  "0 \<le> versionTapCount st \<Longrightarrow> versionTapCount st \<le> 6
     \<Longrightarrow> 0 \<le> versionTapCount (versionTaps clock st)
       \<and> versionTapCount (versionTaps clock st) \<le> 6"
proof (induction clock arbitrary: st)
  case Nil
  then show ?case by (simp add: versionTaps_def)
next
  case (Cons now clock)
  have "0 \<le> versionTapCount (handleVersionTap now st)
      \<and> versionTapCount (handleVersionTap now st) \<le> 6"
    using Cons.prems by (rule handleVersionTap_count_range)
  then have "0 \<le> versionTapCount (versionTaps clock (handleVersionTap now st))
      \<and> versionTapCount (versionTaps clock (handleVersionTap now st)) \<le> 6"
    using Cons.IH by blast
  then show ?case by (simp add: versionTaps_def)
qed

lemma seven_quick_taps_unlock:
  "(let st = versionTaps [1700000000000, 1700000000300, 1700000000600, 1700000000900,
                          1700000001000, 1700000001100, 1700000003100] initialSettings
    in \<not> showDebugUnlockHint st \<and> versionTapCount st = 0 \<and> debugModeEnabled st
       \<and> emitted st = [DebugUnlocked])"
  by (simp add: versionTaps_def handleVersionTap_def initialSettings_def Let_def)

text \<open>
  Claim C10. The hint is meant to be shown only while the count is between 4 and 6. After
  four quick taps the hint is on; a fifth tap more than two seconds later restarts the
  count at 1 and leaves the hint on, since only the unlock branch of \<open>handleVersionTap\<close>
  clears it.
\<close>

theorem stale_unlock_hint:
  "(let st = versionTaps [1700000000000, 1700000000300, 1700000000600, 1700000000900,
                          1700000005000] initialSettings
    in showDebugUnlockHint st \<and> versionTapCount st = 1 \<and> \<not> debugModeEnabled st)"
  by (simp add: versionTaps_def handleVersionTap_def initialSettings_def Let_def)

section \<open>Properties of the debug-information view\<close>

lemma substring_take: "substring s 0 (int n) = take n s"
  by (simp add: substring_def clamp_index_def Let_def min_def max_def)

lemma substring_from_drop:
  "substring_from s (int (length s) - 10) = drop (length s - 10) s"
proof -
  have "nat (int (length s) - 10) = length s - 10" by arith
  then show ?thesis
    by (simp add: substring_from_def substring_def clamp_index_def Let_def min_def max_def)
qed

lemma tokenPreview_eq:
  "tokenPreview token = take 20 token @ ''...'' @ drop (length token - 10) token"
  using substring_take[of token 20] substring_from_drop[of token]
  by (simp add: tokenPreview_def)

lemma tokenPreview_length: "20 \<le> length token \<Longrightarrow> length (tokenPreview token) = 33"
  by (simp add: tokenPreview_eq)

text \<open>
  Claim C9, as stated, fails: the copy button of the token card puts the whole token on
  the system clipboard.
\<close>

theorem token_copy_writes_full_token:
  "clipboard (tokenCopyClick ''MTIzNDU2Nzg5MDEyMzQ1Njc4OTA.GhIjKl.abcdefghijklmnopqrstuvwxyz0123456789AB'' (Inr ())
      \<lparr> clipboard = [], copied = None, consoleOut = [] \<rparr>)
   = ''MTIzNDU2Nzg5MDEyMzQ1Njc4OTA.GhIjKl.abcdefghijklmnopqrstuvwxyz0123456789AB''"
  by (simp add: tokenCopyClick_def copyToClipboard_def)

text \<open>
  Claim C9, amended. The token card displays a truncated form: the first 20 characters,
  three dots and the last 10 characters. For a token longer than 33 characters the
  displayed text is 33 characters long and does not contain the token. What
  \<open>copyToClipboard\<close> writes to the console does not depend on the text copied. The copy
  button writes the full token to the clipboard.
\<close>

theorem token_preview_truncated:
  assumes "33 < length token"
  shows "tokenPreview token = take 20 token @ ''...'' @ drop (length token - 10) token
     \<and> length (tokenPreview token) = 33
     \<and> \<not> sublist token (tokenPreview token)
     \<and> consoleOut (copyToClipboard token key r st) = consoleOut (copyToClipboard other key r st)
     \<and> clipboard (tokenCopyClick token (Inr ()) st) = token"
proof -
  have len: "length (tokenPreview token) = 33"
    using assms by (simp add: tokenPreview_length)
  have "\<not> sublist token (tokenPreview token)"
  proof
    assume "sublist token (tokenPreview token)"
    then have "length token \<le> length (tokenPreview token)"
      by (rule sublist_length_le)
    with len assms show False by simp
  qed
  moreover have "consoleOut (copyToClipboard token key r st)
                 = consoleOut (copyToClipboard other key r st)"
    by (cases r) (simp_all add: copyToClipboard_def)
  moreover have "clipboard (tokenCopyClick token (Inr ()) st) = token"
    by (simp add: tokenCopyClick_def copyToClipboard_def)
  ultimately show ?thesis using len tokenPreview_eq by simp
qed

theorem token_preview_truncated_witness:
  "33 < length ''MTIzNDU2Nzg5MDEyMzQ1Njc4OTA.GhIjKl.abcdefghijklmnopqrstuvwxyz0123456789AB''
   \<and> tokenPreview ''MTIzNDU2Nzg5MDEyMzQ1Njc4OTA.GhIjKl.abcdefghijklmnopqrstuvwxyz0123456789AB'' = ''MTIzNDU2Nzg5MDEyMzQ1...23456789AB''
   \<and> \<not> sublist ''MTIzNDU2Nzg5MDEyMzQ1Njc4OTA.GhIjKl.abcdefghijklmnopqrstuvwxyz0123456789AB'' (tokenPreview ''MTIzNDU2Nzg5MDEyMzQ1Njc4OTA.GhIjKl.abcdefghijklmnopqrstuvwxyz0123456789AB'')"
  proof -
  let ?tok = "''MTIzNDU2Nzg5MDEyMzQ1Njc4OTA.GhIjKl.abcdefghijklmnopqrstuvwxyz0123456789AB''"
  have h: "33 < length ?tok" by simp
  note t = token_preview_truncated [OF h, of "''token''" "Inr ()"
      "\<lparr> clipboard = [], copied = None, consoleOut = [] \<rparr>" "[]"]
  from t have "tokenPreview ?tok = take 20 ?tok @ ''...'' @ drop (length ?tok - 10) ?tok"
    by blast
  then have a: "tokenPreview ?tok = ''MTIzNDU2Nzg5MDEyMzQ1...23456789AB''"
    by simp
  from t have b: "\<not> sublist ?tok (tokenPreview ?tok)"
    by blast
  from h a b show ?thesis by blast
qed

section \<open>Properties of the quest session controller\<close>

lemma video_run_Nil: "video_run p [] s = s"
  by (simp add: video_run_def)

lemma video_run_snoc: "video_run p (cs @ [c]) s = video_tick p c (video_run p cs s)"
  by (simp add: video_run_def)

lemma replicate_Suc_snoc: "replicate (Suc n) x = replicate n x @ [x]"
  by (simp add: replicate_append_same)

text \<open>While the target is not reached, \<open>n\<close> confirmed ticks leave both layers at
  \<open>n\<close> increments and the session Running.\<close>

lemma video_run_confirmed:
  assumes "0 < tick_increment p" "0 \<le> i" "int n * tick_increment p + i < target_amount p"
  shows "video_run p (replicate n True) (startVideoQuest q i t0)
         = \<lparr> quest_id = q, local_pending_progress = i + int n * tick_increment p,
             submitted_progress = i + int n * tick_increment p, status = Running,
             started_at = t0 \<rparr>"
  using assms
proof (induction n)
  case 0
  then show ?case by (simp add: video_run_Nil startVideoQuest_def)
next
  case (Suc n)
  have "int n * tick_increment p + i < target_amount p"
    using Suc.prems by (simp add: algebra_simps)
  then have IH: "video_run p (replicate n True) (startVideoQuest q i t0)
         = \<lparr> quest_id = q, local_pending_progress = i + int n * tick_increment p,
             submitted_progress = i + int n * tick_increment p, status = Running,
             started_at = t0 \<rparr>"
    using Suc by simp
  show ?case
    unfolding replicate_Suc_snoc video_run_snoc IH
    using Suc.prems by (simp add: video_tick_def Let_def algebra_simps)
qed

text \<open>The tick that reaches the target submits exactly up to it and completes.\<close>

lemma video_run_completes:
  assumes "0 < tick_increment p" "0 \<le> i" "int n * tick_increment p + i < target_amount p"
      and "target_amount p \<le> int (Suc n) * tick_increment p + i"
  shows "status (video_run p (replicate (Suc n) True) (startVideoQuest q i t0)) = Completed
     \<and> submitted_progress (video_run p (replicate (Suc n) True) (startVideoQuest q i t0))
         = target_amount p"
  unfolding replicate_Suc_snoc video_run_snoc video_run_confirmed[OF assms(1,2,3)]
  using assms by (simp add: video_tick_def Let_def algebra_simps min_def)

text \<open>
  Claim C4. With target 600 seconds, initial progress 0, speed multiplier 5 and heartbeat
  interval 10 seconds, a tick accrues 50 simulated seconds, the first tick submits 50
  seconds, the session is still Running with 550 seconds after 11 confirmed ticks and
  Completed with 600 seconds after the 12th, that is after 120 seconds of wall clock.
\<close>

theorem video_scenario_twelve_ticks:
  "tick_increment scenario = 50
   \<and> submitted_progress (video_tick scenario True (startVideoQuest q 0 t0)) = 50
   \<and> status (video_run scenario (replicate 11 True) (startVideoQuest q 0 t0)) = Running
   \<and> submitted_progress (video_run scenario (replicate 11 True) (startVideoQuest q 0 t0)) = 550
   \<and> status (video_run scenario (replicate 12 True) (startVideoQuest q 0 t0)) = Completed
   \<and> submitted_progress (video_run scenario (replicate 12 True) (startVideoQuest q 0 t0)) = 600
   \<and> 12 * heartbeat_interval scenario = 120"
proof -
  have inc: "tick_increment scenario = 50"
    by (simp add: tick_increment_def scenario_def)
  have tgt: "target_amount scenario = 600"
    by (simp add: scenario_def)
  have r11: "video_run scenario (replicate 11 True) (startVideoQuest q 0 t0)
        = \<lparr> quest_id = q, local_pending_progress = 550,
             submitted_progress = 550, status = Running, started_at = t0 \<rparr>"
    using video_run_confirmed[of scenario 0 11 q t0] by (simp add: inc tgt)
  have r12: "video_run scenario (replicate 12 True) (startVideoQuest q 0 t0)
        = video_tick scenario True
            (video_run scenario (replicate 11 True) (startVideoQuest q 0 t0))"
    using video_run_snoc[of scenario "replicate 11 True" True] replicate_Suc_snoc[of 11 True]
    by simp
  show ?thesis
    unfolding r12 r11
    by (simp add: inc tgt video_tick_def startVideoQuest_def Let_def) (simp add: scenario_def)
qed

lemma final_status_not_Running: "final_status e \<noteq> Running"
  by (cases e) simp_all

lemma filter_finish_Nil: "filter (\<lambda>s. status s = Running) (map (finish e) ss) = []"
  by (induction ss) (simp_all add: finish_def final_status_not_Running)

lemma quest_id_finish: "quest_id (finish e s) = quest_id s"
  by (simp add: finish_def)

lemma running_start_session: "status (start_session q) = Running"
  by (simp add: start_session_def)

lemma running_idle: "running_sessions idle = []"
  by (simp add: idle_def running_sessions_def)

lemma running_accept_le:
  assumes "length (running_sessions c) \<le> 1"
  shows "length (running_sessions (accept q c)) \<le> 1"
proof (cases "running_sessions c = []")
  case True
  then show ?thesis
    by (simp add: accept_def running_sessions_def running_start_session)
next
  case False
  then have "running_sessions (accept q c) = running_sessions c"
    by (simp add: accept_def running_sessions_def)
  with assms show ?thesis by simp
qed

lemma running_terminate:
  "running_sessions (terminate e c) =
     (case queue c of [] \<Rightarrow> [] | q # rest \<Rightarrow> [start_session q])"
  by (simp add: terminate_def Let_def running_sessions_def filter_finish_Nil
      running_start_session split: list.split)

lemma running_terminate_le: "length (running_sessions (terminate e c)) \<le> 1"
  by (simp add: running_terminate split: list.split)

lemma running_apply_op_le:
  assumes "length (running_sessions c) \<le> 1"
  shows "length (running_sessions (apply_op c x)) \<le> 1"
proof (cases x)
  case (Accept q)
  then show ?thesis using running_accept_le[OF assms] by simp
next
  case (Terminate e)
  then show ?thesis using running_terminate_le by simp
qed

lemma running_run_ops_le:
  "length (running_sessions c) \<le> 1 \<Longrightarrow> length (running_sessions (run_ops ops c)) \<le> 1"
proof (induction ops arbitrary: c)
  case Nil
  then show ?case by (simp add: run_ops_def)
next
  case (Cons x ops)
  have "length (running_sessions (apply_op c x)) \<le> 1"
    using Cons.prems by (rule running_apply_op_le)
  then have "length (running_sessions (run_ops ops (apply_op c x))) \<le> 1"
    by (rule Cons.IH)
  then show ?case by (simp add: run_ops_def)
qed

lemma accept_while_running:
  "running_sessions c \<noteq> [] \<Longrightarrow>
   accept q c = (if qid q \<in> set (map qid (queue c)) then c else c\<lparr>queue := queue c @ [q]\<rparr>)"
  by (simp add: accept_def)

lemma accept_keeps_sessions:
  "running_sessions c \<noteq> [] \<Longrightarrow> sessions (accept q c) = sessions c"
  by (simp add: accept_def)

lemma accept_twice:
  "running_sessions c \<noteq> [] \<Longrightarrow> accept q (accept q c) = accept q c"
  by (simp add: accept_def running_sessions_def)

lemma accept_all_snoc: "accept_all (qs @ [q]) c = accept q (accept_all qs c)"
  by (simp add: accept_all_def)

lemma accept_all_sessions:
  "running_sessions c \<noteq> [] \<Longrightarrow> sessions (accept_all qs c) = sessions c"
proof (induction qs rule: rev_induct)
  case Nil
  then show ?case by (simp add: accept_all_def)
next
  case (snoc q qs)
  then have same: "sessions (accept_all qs c) = sessions c" by simp
  then have "running_sessions (accept_all qs c) \<noteq> []"
    using snoc.prems by (simp add: running_sessions_def)
  then have "sessions (accept q (accept_all qs c)) = sessions (accept_all qs c)"
    by (rule accept_keeps_sessions)
  with same show ?case by (simp add: accept_all_snoc)
qed

lemma accept_all_running:
  "running_sessions c \<noteq> [] \<Longrightarrow> running_sessions (accept_all qs c) = running_sessions c"
  by (simp add: running_sessions_def accept_all_sessions[unfolded running_sessions_def])

lemma accept_all_queue_ids:
  assumes "running_sessions c \<noteq> []" and "queue c = []"
  shows "map qid (queue (accept_all qs c)) = rev (remdups (rev (map qid qs)))"
proof (induction qs rule: rev_induct)
  case Nil
  then show ?case using assms(2) by (simp add: accept_all_def)
next
  case (snoc q qs)
  have run: "running_sessions (accept_all qs c) \<noteq> []"
    using assms(1) by (simp add: accept_all_running)
  have "map qid (queue (accept q (accept_all qs c))) =
        (if qid q \<in> set (map qid (queue (accept_all qs c)))
         then map qid (queue (accept_all qs c))
         else map qid (queue (accept_all qs c)) @ [qid q])"
    by (simp add: accept_while_running[OF run])
  also have "\<dots> = rev (remdups (rev (map qid (qs @ [q]))))"
    by (simp add: snoc.IH)
  finally show ?case by (simp add: accept_all_snoc)
qed

lemma terminate_all_Cons: "terminate_all (e # es) c = terminate_all es (terminate e c)"
  by (simp add: terminate_all_def)

lemma terminate_all_fifo:
  "length es \<le> length (queue c) \<Longrightarrow>
     queue (terminate_all es c) = drop (length es) (queue c)
   \<and> map quest_id (sessions (terminate_all es c))
       = map quest_id (sessions c) @ map qid (take (length es) (queue c))"
proof (induction es arbitrary: c)
  case Nil
  then show ?case by (simp add: terminate_all_def)
next
  case (Cons e es)
  then obtain q rest where Q: "queue c = q # rest"
    by (cases "queue c") simp_all
  have q1: "queue (terminate e c) = rest"
    by (simp add: terminate_def Let_def Q)
  have s1: "map quest_id (sessions (terminate e c)) = map quest_id (sessions c) @ [qid q]"
    by (simp add: terminate_def Let_def Q quest_id_finish start_session_def)
  have "length es \<le> length (queue (terminate e c))"
    using Cons.prems by (simp add: q1 Q)
  from Cons.IH[OF this] show ?case
    by (simp add: terminate_all_Cons q1 s1 Q)
qed

lemma terminate_all_running:
  "es \<noteq> [] \<Longrightarrow> length es \<le> length (queue c) \<Longrightarrow>
     map quest_id (running_sessions (terminate_all es c)) = [qid (queue c ! (length es - 1))]"
proof (induction es arbitrary: c)
  case Nil
  then show ?case by simp
next
  case (Cons e es)
  then obtain q rest where Q: "queue c = q # rest"
    by (cases "queue c") simp_all
  have q1: "queue (terminate e c) = rest"
    by (simp add: terminate_def Let_def Q)
  show ?case
  proof (cases "es = []")
    case True
    then show ?thesis
      by (simp add: terminate_all_def running_terminate Q start_session_def)
  next
    case False
    have "length es \<le> length (queue (terminate e c))"
      using Cons.prems by (simp add: q1 Q)
    from Cons.IH[OF False this] False show ?thesis
      by (simp add: terminate_all_Cons q1 Q nth_Cons split: nat.split)
  qed
qed

text \<open>
  Claim C3. In every history of accepts and terminations from the idle controller at most
  one session is Running. When quests are accepted while a session is Running (the queue
  empty before): still exactly one session is Running; every id is in the queue at most
  once; the queue holds the ids in the order of their first acceptance, so its length is
  the number of distinct ids; accepting the same quest again changes nothing; and each
  termination promotes the quest at the head of the queue, so the k-th termination makes
  the k-th queued quest the Running one.
\<close>

theorem quest_queue_fifo:
  assumes run: "length (running_sessions c) = 1" and emp: "queue c = []"
  shows "length (running_sessions (run_ops ops idle)) \<le> 1
     \<and> length (running_sessions (accept_all qs c)) = 1
     \<and> distinct (map qid (queue (accept_all qs c)))
     \<and> map qid (queue (accept_all qs c)) = rev (remdups (rev (map qid qs)))
     \<and> length (queue (accept_all qs c)) = card (set (map qid qs))
     \<and> accept q (accept q c) = accept q c
     \<and> (es \<noteq> [] \<and> length es \<le> length (queue (accept_all qs c)) \<longrightarrow>
          map quest_id (running_sessions (terminate_all es (accept_all qs c)))
            = [map qid (queue (accept_all qs c)) ! (length es - 1)]
        \<and> queue (terminate_all es (accept_all qs c)) = drop (length es) (queue (accept_all qs c)))"
proof -
  have ne: "running_sessions c \<noteq> []" using run by auto
  have ids: "map qid (queue (accept_all qs c)) = rev (remdups (rev (map qid qs)))"
    using ne emp by (rule accept_all_queue_ids)
  have a: "length (running_sessions (run_ops ops idle)) \<le> 1"
    by (rule running_run_ops_le) (simp add: running_idle)
  have b: "length (running_sessions (accept_all qs c)) = 1"
    using run by (simp add: accept_all_running[OF ne])
  have c: "distinct (map qid (queue (accept_all qs c)))"
    by (simp add: ids)
  have "length (map qid (queue (accept_all qs c))) = card (set (map qid qs))"
    unfolding ids by (simp add: length_remdups_card_conv)
  then have d: "length (queue (accept_all qs c)) = card (set (map qid qs))"
    by simp
  have e: "accept q (accept q c) = accept q c"
    using ne by (rule accept_twice)
  have f: "es \<noteq> [] \<and> length es \<le> length (queue (accept_all qs c)) \<longrightarrow>
          map quest_id (running_sessions (terminate_all es (accept_all qs c)))
            = [map qid (queue (accept_all qs c)) ! (length es - 1)]
        \<and> queue (terminate_all es (accept_all qs c)) = drop (length es) (queue (accept_all qs c))"
  proof
    assume h: "es \<noteq> [] \<and> length es \<le> length (queue (accept_all qs c))"
    then have lt: "length es - 1 < length (queue (accept_all qs c))"
      by (cases es) simp_all
    show "map quest_id (running_sessions (terminate_all es (accept_all qs c)))
            = [map qid (queue (accept_all qs c)) ! (length es - 1)]
        \<and> queue (terminate_all es (accept_all qs c)) = drop (length es) (queue (accept_all qs c))"
      using terminate_all_running[of es "accept_all qs c"] terminate_all_fifo[of es "accept_all qs c"] h lt
      by simp
  qed
  show ?thesis using a b c d e f ids by blast
qed


theorem quest_queue_fifo_witness:
  "length (running_sessions (accept (quest_of_id ''v'') idle)) = 1
   \<and> queue (accept (quest_of_id ''v'') idle) = []
   \<and> map qid (queue (accept_all [quest_of_id ''a'', quest_of_id ''b'', quest_of_id ''a'', quest_of_id ''c'']
                       (accept (quest_of_id ''v'') idle))) = [''a'', ''b'', ''c'']
   \<and> length (queue (accept_all [quest_of_id ''a'', quest_of_id ''b'', quest_of_id ''a'', quest_of_id ''c'']
                       (accept (quest_of_id ''v'') idle))) = 3
   \<and> map quest_id (running_sessions (terminate_all [ByCompletion, ByStop]
          (accept_all [quest_of_id ''a'', quest_of_id ''b'', quest_of_id ''a'', quest_of_id ''c'']
                       (accept (quest_of_id ''v'') idle)))) = [''b'']"
proof -
  let ?c = "accept (quest_of_id ''v'') idle"
  let ?qs = "[quest_of_id ''a'', quest_of_id ''b'', quest_of_id ''a'', quest_of_id ''c'']"
  have h1: "length (running_sessions ?c) = 1"
    by (simp add: accept_def idle_def running_sessions_def start_session_def)
  have h2: "queue ?c = []"
    by (simp add: accept_def idle_def running_sessions_def)
  have ids: "rev (remdups (rev (map qid ?qs))) = [''a'', ''b'', ''c'']"
    by (simp add: quest_of_id_def)
  have "length (remdups (map qid ?qs)) = 3"
    by (simp add: quest_of_id_def)
  then have crd: "card (set (map qid ?qs)) = 3"
    by (simp only: card_set)
  note t = quest_queue_fifo[OF h1 h2, of "[]" ?qs "quest_of_id ''a''" "[ByCompletion, ByStop]"]
  from t have q: "map qid (queue (accept_all ?qs ?c)) = [''a'', ''b'', ''c'']"
    using ids by simp
  from t have l: "length (queue (accept_all ?qs ?c)) = 3"
    using crd by simp
  from t l q have "map quest_id (running_sessions (terminate_all [ByCompletion, ByStop] (accept_all ?qs ?c)))
      = [''b'']"
    by simp
  with h1 h2 q l show ?thesis by blast
qed

end
